theory Spec2Isabelle
  imports Complex_Main "HOL-Library.Log_Nat" "HOL-Library.Multiset"
begin

section \<open>A CART decision-tree classifier: the embedding\<close>

text \<open>
  The development follows the class \<open>DecisionTreeClassifier\<close> of the decision-tree
  notebook. A NumPy matrix of observations is a list of rows, a label vector a list of
  natural numbers (the notebook's labels come out of a label encoder), a Python
  \<open>int\<close> is an \<open>int\<close>. Every finite binary64 number is a rational, and the order of
  binary64 numbers is the order of the rationals, so a float is a \<open>rat\<close>; what is
  particular to floats is that every arithmetic operation rounds its exact result.
\<close>

subsection \<open>Binary64 arithmetic\<close>

text \<open>
  \<open>fl\<close> rounds a rational to the nearest binary64 number, ties to even: 53 significant
  bits, the exponent of the last bit not below \<open>-1074\<close> (gradual underflow). The four
  operations round the exact result once, as IEEE 754 prescribes. Overflow to infinity
  and NaN are not represented.
\<close>

definition pow2 :: "int \<Rightarrow> rat" where
  "pow2 e = (if 0 \<le> e then 2 ^ nat e else 1 / 2 ^ nat (- e))"

definition ilog2 :: "rat \<Rightarrow> int" where
  "ilog2 x = (case quotient_of x of (p, q) \<Rightarrow>
     let k = bitlen p - bitlen q in if pow2 k \<le> x then k else k - 1)"

definition round_half_even :: "rat \<Rightarrow> int" where
  "round_half_even s =
     (let f = \<lfloor>s\<rfloor>; r = s - of_int f
      in if r < 1 / 2 then f else if 1 / 2 < r then f + 1 else if even f then f else f + 1)"

definition fl :: "rat \<Rightarrow> rat" where
  "fl x = (if x = 0 then 0
           else let e = max (ilog2 \<bar>x\<bar> - 52) (- 1074)
                in sgn x * of_int (round_half_even (\<bar>x\<bar> / pow2 e)) * pow2 e)"

definition fadd :: "rat \<Rightarrow> rat \<Rightarrow> rat" where
  "fadd a b = fl (a + b)"

definition fsub :: "rat \<Rightarrow> rat \<Rightarrow> rat" where
  "fsub a b = fl (a - b)"

definition fmul :: "rat \<Rightarrow> rat \<Rightarrow> rat" where
  "fmul a b = fl (a * b)"

definition fdiv :: "rat \<Rightarrow> rat \<Rightarrow> rat" where
  "fdiv a b = fl (a / b)"

text \<open>The conversion of an integer to binary64.\<close>

definition of_count :: "int \<Rightarrow> rat" where
  "of_count c = fl (of_int c)"

text \<open>
  \<open>np.sum\<close> of a float array of fewer than eight elements: accumulation from the left,
  starting at zero. (NumPy adds longer arrays in blocks, in another order of roundings;
  the results below that hold for every number of classes do not depend on the order.)
\<close>

definition fsum :: "rat list \<Rightarrow> rat" where
  "fsum xs = fold (\<lambda>x acc. fadd acc x) xs 0"

subsection \<open>Errors and array access\<close>

datatype error = ValueError | IndexError | TypeError | AttributeError

text \<open>A \<open>for\<close> loop whose body may raise: the first error ends the loop.\<close>

fun for_each :: "('i \<Rightarrow> 's \<Rightarrow> error + 's) \<Rightarrow> 'i list \<Rightarrow> 's \<Rightarrow> error + 's" where
  "for_each body [] s = Inr s"
| "for_each body (i # is) s =
     (case body i s of Inl e \<Rightarrow> Inl e | Inr s' \<Rightarrow> for_each body is s')"

text \<open>\<open>y[indices]\<close>: an index array selects elements; an index out of range raises.\<close>

definition take_indices :: "'a list \<Rightarrow> nat list \<Rightarrow> error + 'a list" where
  "take_indices ys idx =
     (if \<forall>i \<in> set idx. i < length ys then Inr (map ((!) ys) idx) else Inl IndexError)"

text \<open>\<open>y[mask]\<close>: a boolean mask selects elements; a mask of another length raises.\<close>

definition mask_select :: "'a list \<Rightarrow> bool list \<Rightarrow> error + 'a list" where
  "mask_select ys m =
     (if length m = length ys then Inr (map fst (filter snd (zip ys m)))
      else Inl IndexError)"

text \<open>
  \<open>np.argsort\<close>: the indices in ascending order of their values. Indices of equal
  values are kept in their order here; NumPy leaves their order open.
\<close>

definition argsort :: "rat list \<Rightarrow> nat list" where
  "argsort v = sort_key ((!) v) [0..<length v]"

text \<open>\<open>np.argmax\<close>: the first index of the largest element; it raises on an empty array.\<close>

fun argmax_from :: "int list \<Rightarrow> nat \<Rightarrow> nat \<Rightarrow> int \<Rightarrow> nat" where
  "argmax_from [] i bi bv = bi"
| "argmax_from (c # cs) i bi bv =
     (if bv < c then argmax_from cs (Suc i) i c else argmax_from cs (Suc i) bi bv)"

definition argmax :: "int list \<Rightarrow> error + nat" where
  "argmax cs = (case cs of [] \<Rightarrow> Inl ValueError | c # rest \<Rightarrow> Inr (argmax_from rest 1 0 c))"

subsection \<open>Nodes and the classifier\<close>

text \<open>
  \<open>Node = namedtuple('Node', ['threshold', 'feature_index', 'majority_class', 'left',
  'right'])\<close>; a field that holds \<open>None\<close> is \<open>None\<close>.
\<close>

datatype node = Node
  (threshold: "rat option") (feature_index: "nat option") (majority_class: nat)
  (left: "node option") (right: "node option")

text \<open>
  The attributes of the classifier; the attribute \<open>root\<close> is the field \<open>root_node\<close>.
\<close>

record classifier =
  n_classes :: "nat option"
  n_features :: "nat option"
  max_depth :: "int option"
  root_node :: "node option"

text \<open>\<open>__init__\<close>\<close>

definition init :: classifier where
  "init = \<lparr>n_classes = None, n_features = None, max_depth = None, root_node = None\<rparr>"

subsection \<open>The split search\<close>

text \<open>\<open>np.array([np.sum(y==c) for c in range(self.n_classes)])\<close>\<close>

definition class_counts_of :: "nat \<Rightarrow> nat list \<Rightarrow> int list" where
  "class_counts_of k y = map (\<lambda>c. int (count_list y c)) [0..<k]"

text \<open>
  \<open>1 - np.sum((class_counts / n_observations) ** 2)\<close>. With no observations NumPy
  divides by zero into \<open>nan\<close> or \<open>inf\<close> under a warning, where \<open>gini\<close> has some number;
  no comparison reads it then, the loops over \<open>range(1, 0)\<close> being empty.
\<close>

definition gini :: "int list \<Rightarrow> int \<Rightarrow> rat" where
  "gini counts n =
     fsub 1 (fsum (map (\<lambda>c. let p = fdiv (of_count c) (of_count n) in fmul p p) counts))"

text \<open>
  \<open>(1 / n_observations) * (n_observations_left * gini_left + n_observations_right *
  gini_right)\<close>
\<close>

definition weighted_gini :: "int \<Rightarrow> int \<Rightarrow> rat \<Rightarrow> int \<Rightarrow> rat \<Rightarrow> rat" where
  "weighted_gini n nl gl nr gr =
     fmul (fdiv 1 (of_count n)) (fadd (fmul (of_count nl) gl) (fmul (of_count nr) gr))"

text \<open>The search state: \<open>best_gini\<close>, \<open>best_feature\<close>, \<open>best_threshold\<close>.\<close>

type_synonym best = "rat \<times> nat option \<times> rat option"

text \<open>
  The body of the loop over \<open>midpoint_id\<close>; its state is \<open>left_class_counts\<close>,
  \<open>right_class_counts\<close> and the search state.
\<close>

definition midpoint_step ::
  "int \<Rightarrow> nat \<Rightarrow> rat list \<Rightarrow> nat list \<Rightarrow> nat \<Rightarrow> int list \<times> int list \<times> best
     \<Rightarrow> error + int list \<times> int list \<times> best" where
  "midpoint_step n_observations feature sorted_observations sorted_classes midpoint_id st =
     (case st of (left_class_counts, right_class_counts, best_gini, best_feature, best_threshold) \<Rightarrow>
        let prev_observation_class = sorted_classes ! (midpoint_id - 1)
        in if length left_class_counts \<le> prev_observation_class
              \<or> length right_class_counts \<le> prev_observation_class
           then Inl IndexError
           else
             let left_class_counts = left_class_counts
                   [prev_observation_class := left_class_counts ! prev_observation_class + 1];
                 right_class_counts = right_class_counts
                   [prev_observation_class := right_class_counts ! prev_observation_class - 1];
                 n_observations_left = int midpoint_id;
                 n_observations_right = n_observations - n_observations_left;
                 gini_left = gini left_class_counts n_observations_left;
                 gini_right = gini right_class_counts n_observations_right;
                 g = weighted_gini n_observations n_observations_left gini_left
                       n_observations_right gini_right
             in if sorted_observations ! midpoint_id = sorted_observations ! (midpoint_id - 1)
                then Inr (left_class_counts, right_class_counts,
                          best_gini, best_feature, best_threshold)
                else if g < best_gini
                then Inr (left_class_counts, right_class_counts, g, Some feature,
                          Some (fdiv (fadd (sorted_observations ! (midpoint_id - 1))
                                           (sorted_observations ! midpoint_id)) 2))
                else Inr (left_class_counts, right_class_counts,
                          best_gini, best_feature, best_threshold))"

text \<open>The body of the loop over \<open>feature\<close>.\<close>

definition feature_step ::
  "nat \<Rightarrow> rat list list \<Rightarrow> nat list \<Rightarrow> int list \<Rightarrow> nat \<Rightarrow> best \<Rightarrow> error + best" where
  "feature_step k X y class_counts feature b =
     (let column = map (\<lambda>row. row ! feature) X;
          sorted_indices = argsort column;
          sorted_observations = map ((!) column) sorted_indices
      in case take_indices y sorted_indices of
           Inl e \<Rightarrow> Inl e
         | Inr sorted_classes \<Rightarrow>
             (case for_each
                     (midpoint_step (int (length X)) feature sorted_observations sorted_classes)
                     [1..<length X] (replicate k 0, class_counts, b) of
                Inl e \<Rightarrow> Inl e
              | Inr (left_class_counts, right_class_counts, b') \<Rightarrow> Inr b'))"

text \<open>
  \<open>best_node_split\<close>, with \<open>self.n_classes\<close> and \<open>self.n_features\<close> as its first
  arguments: \<open>fit\<close> has set them before the search runs.
\<close>

definition best_node_split ::
  "nat \<Rightarrow> nat \<Rightarrow> rat list list \<Rightarrow> nat list \<Rightarrow> error + nat option \<times> rat option" where
  "best_node_split k nf X y =
     (let n_observations = int (length X);
          class_counts = class_counts_of k y;
          best_gini = gini class_counts n_observations
      in case for_each (feature_step k X y class_counts) [0..<nf] (best_gini, None, None) of
           Inl e \<Rightarrow> Inl e
         | Inr (best_gini', best_feature, best_threshold) \<Rightarrow> Inr (best_feature, best_threshold))"

subsection \<open>The tree builder\<close>

text \<open>
  \<open>build_tree\<close>, with \<open>self.n_classes\<close>, \<open>self.n_features\<close> and \<open>self.max_depth\<close> as
  its first arguments. The recursion descends while \<open>depth < self.max_depth\<close>.
\<close>

function build_tree ::
  "nat \<Rightarrow> nat \<Rightarrow> int \<Rightarrow> rat list list \<Rightarrow> nat list \<Rightarrow> int \<Rightarrow> error + node" where
  "build_tree k nf md X y depth =
     (case argmax (class_counts_of k y) of
        Inl e \<Rightarrow> Inl e
      | Inr majority \<Rightarrow>
          if depth < md then
            (case best_node_split k nf X y of
               Inl e \<Rightarrow> Inl e
             | Inr (None, best_threshold) \<Rightarrow>
                 Inr (Node best_threshold None majority None None)
             | Inr (Some best_feature, None) \<Rightarrow> Inl TypeError
             | Inr (Some best_feature, Some best_threshold) \<Rightarrow>
                 (let left_mask = map (\<lambda>row. row ! best_feature < best_threshold) X
                  in case mask_select X left_mask of
                       Inl e \<Rightarrow> Inl e
                     | Inr X_left \<Rightarrow>
                  (case mask_select y left_mask of
                       Inl e \<Rightarrow> Inl e
                     | Inr y_left \<Rightarrow>
                  (case build_tree k nf md X_left y_left (depth + 1) of
                       Inl e \<Rightarrow> Inl e
                     | Inr l \<Rightarrow>
                  (let right_mask = map (\<lambda>row. best_threshold < row ! best_feature) X
                   in case mask_select X right_mask of
                       Inl e \<Rightarrow> Inl e
                     | Inr X_right \<Rightarrow>
                  (case mask_select y right_mask of
                       Inl e \<Rightarrow> Inl e
                     | Inr y_right \<Rightarrow>
                  (case build_tree k nf md X_right y_right (depth + 1) of
                       Inl e \<Rightarrow> Inl e
                     | Inr r \<Rightarrow>
                         Inr (Node (Some best_threshold) (Some best_feature) majority
                                (Some l) (Some r)))))))))
          else Inr (Node None None majority None None))"
  by pat_completeness auto
termination
  by (relation "measure (\<lambda>(k, nf, md, X, y, depth). nat (md - depth))") auto

declare build_tree.simps [simp del]

text \<open>\<open>X.shape[1]\<close>, the number of columns; rows of one matrix have one length.\<close>

definition shape1 :: "rat list list \<Rightarrow> nat" where
  "shape1 X = (case X of [] \<Rightarrow> 0 | row # rest \<Rightarrow> length row)"

text \<open>
  \<open>fit\<close>. \<open>np.max\<close> raises on an empty label vector. The result is the classifier after
  the call, or the exception that left the call.
\<close>

definition fit :: "classifier \<Rightarrow> rat list list \<Rightarrow> nat list \<Rightarrow> int \<Rightarrow> error + classifier" where
  "fit self X y md =
     (if y = [] then Inl ValueError
      else
        let nf = shape1 X; k = Max (set y) + 1
        in case build_tree k nf md X y 0 of
             Inl e \<Rightarrow> Inl e
           | Inr r \<Rightarrow>
               Inr (self\<lparr>n_features := Some nf, n_classes := Some k, max_depth := Some md,
                         root_node := Some r\<rparr>))"

subsection \<open>The predictor\<close>

text \<open>
  The \<open>while\<close> loop of \<open>predict\<close> for one observation. It stops at a node whose left
  child is \<open>None\<close>; stepping to a right child that is \<open>None\<close> fails at the next test,
  and so does indexing a row that is too short. A node with a left child and no feature
  index or threshold is not one that \<open>build_tree\<close> makes; comparing with \<open>None\<close> fails.
\<close>

fun walk :: "node \<Rightarrow> rat list \<Rightarrow> error + nat" where
  "walk (Node t f c None r) observation = Inr c"
| "walk (Node t f c (Some l) r) observation =
     (case (f, t) of
        (Some feature, Some thr) \<Rightarrow>
          if length observation \<le> feature then Inl IndexError
          else if observation ! feature \<le> thr then walk l observation
          else (case r of None \<Rightarrow> Inl AttributeError | Some rn \<Rightarrow> walk rn observation)
      | _ \<Rightarrow> Inl TypeError)"

text \<open>
  \<open>predict\<close> returns the classifier as it leaves the call and the predictions or the
  exception. Before \<open>fit\<close> the root is \<open>None\<close>, and the first observation fails on it.
\<close>

definition predict :: "classifier \<Rightarrow> rat list list \<Rightarrow> classifier \<times> (error + nat list)" where
  "predict self X =
     (self,
      for_each
        (\<lambda>observation predictions.
           case root_node self of
             None \<Rightarrow> Inl AttributeError
           | Some node \<Rightarrow>
               (case walk node observation of
                  Inl e \<Rightarrow> Inl e
                | Inr c \<Rightarrow> Inr (predictions @ [c])))
        X [])"

subsection \<open>The renderer\<close>

text \<open>The decimal digits of a natural number, as \<open>str\<close> prints an integer.\<close>

fun str_nat :: "nat \<Rightarrow> string" where
  "str_nat n =
     (if n < 10 then [''0123456789'' ! n]
      else str_nat (n div 10) @ [''0123456789'' ! (n mod 10)])"

declare str_nat.simps [simp del]

text \<open>\<open>k * ' '\<close>: no character when \<open>k\<close> is negative.\<close>

definition repeat_char :: "int \<Rightarrow> char \<Rightarrow> string" where
  "repeat_char k c = replicate (nat k) c"

text \<open>
  \<open>_print_tree_aux\<close>. Python's shortest-digits printing of a float is its first
  argument, \<open>float_str\<close>. A field that is \<open>None\<close> prints as \<open>None\<close>. Descending into a
  child that is \<open>None\<close> fails.
\<close>

fun print_tree_aux ::
  "(rat \<Rightarrow> string) \<Rightarrow> node \<Rightarrow> error + string list \<times> int \<times> int \<times> int" where
  "print_tree_aux float_str (Node t f c None None) =
     (let line = ''c: '' @ str_nat c;
          width = int (length line);
          height = 1;
          middle = width div 2
      in Inr ([line], width, height, middle))"
| "print_tree_aux float_str (Node t f c None (Some r)) = Inl AttributeError"
| "print_tree_aux float_str (Node t f c (Some l) None) =
     (case print_tree_aux float_str l of Inl e \<Rightarrow> Inl e | Inr res \<Rightarrow> Inl AttributeError)"
| "print_tree_aux float_str (Node t f c (Some l) (Some r)) =
     (case print_tree_aux float_str l of
        Inl e \<Rightarrow> Inl e
      | Inr (left_lines, n, p, x) \<Rightarrow>
          (case print_tree_aux float_str r of
             Inl e \<Rightarrow> Inl e
           | Inr (right_lines, m, q, y) \<Rightarrow>
               let s = ''f: '' @ (case f of None \<Rightarrow> ''None'' | Some i \<Rightarrow> str_nat i)
                       @ '', t: '' @ (case t of None \<Rightarrow> ''None'' | Some v \<Rightarrow> float_str v);
                   u = int (length s);
                   first_line = repeat_char (x + 1) CHR '' '' @ repeat_char (n - x - 1) CHR ''_'' @ s
                                @ repeat_char y CHR ''_'' @ repeat_char (m - y) CHR '' '';
                   second_line = repeat_char x CHR '' '' @ ''/'' @ repeat_char (n - x - 1 + u + y) CHR '' ''
                                 @ [CHR 0x5C] @ repeat_char (m - y - 1) CHR '' '';
                   left_lines = (if p < q then left_lines @ replicate (nat (q - p)) (repeat_char n CHR '' '')
                                 else left_lines);
                   right_lines = (if p < q then right_lines
                                  else if q < p
                                  then right_lines @ replicate (nat (p - q)) (repeat_char m CHR '' '')
                                  else right_lines);
                   zipped_lines = zip left_lines right_lines;
                   lines = [first_line, second_line]
                           @ map (\<lambda>(a, b). a @ repeat_char u CHR '' '' @ b) zipped_lines
               in Inr (lines, n + m + u, max p q + 2, n + u div 2)))"

text \<open>\<open>print_tree\<close>: the lines it prints, in order.\<close>

definition print_tree :: "(rat \<Rightarrow> string) \<Rightarrow> classifier \<Rightarrow> error + string list" where
  "print_tree float_str self =
     (case root_node self of
        None \<Rightarrow> Inl AttributeError
      | Some node \<Rightarrow>
          (case print_tree_aux float_str node of
             Inl e \<Rightarrow> Inl e
           | Inr (lines, w, h, m) \<Rightarrow> Inr lines))"

subsection \<open>Shapes of trees\<close>

text \<open>
  The depths of the nodes without children below a node that is itself at depth \<open>d\<close>.
\<close>

fun leaf_depths :: "nat \<Rightarrow> node \<Rightarrow> nat list" where
  "leaf_depths d (Node t f c None None) = [d]"
| "leaf_depths d (Node t f c (Some l) None) = leaf_depths (Suc d) l"
| "leaf_depths d (Node t f c None (Some r)) = leaf_depths (Suc d) r"
| "leaf_depths d (Node t f c (Some l) (Some r)) =
     leaf_depths (Suc d) l @ leaf_depths (Suc d) r"

text \<open>At every node of the tree both children are \<open>None\<close> or neither is.\<close>

fun children_together :: "node \<Rightarrow> bool" where
  "children_together (Node t f c None None) = True"
| "children_together (Node t f c (Some l) (Some r)) =
     (children_together l \<and> children_together r)"
| "children_together (Node t f c l r) = False"

subsection \<open>The candidates of the split search, as the specification lists them\<close>




section \<open>Evaluating binary64 arithmetic\<close>

text \<open>
  \<open>ilog2 x\<close> is the exponent of the leading bit of a positive \<open>x\<close>. The lemmas below
  characterise it and turn \<open>fl\<close> at a numeral into numeral arithmetic.
\<close>

lemma pow2_pos: "0 < pow2 e"
  by (simp add: pow2_def)

lemma pow2_powi: "pow2 e = 2 powi e"
  by (simp add: pow2_def power_int_def field_simps)

lemma pow2_add: "pow2 (a + b) = pow2 a * pow2 b"
  by (simp add: pow2_powi power_int_add)

lemma pow2_mono: "a \<le> b \<Longrightarrow> pow2 a \<le> pow2 b"
  by (simp add: pow2_powi power_int_increasing)

lemma pow2_less_cancel: "pow2 a < pow2 b \<Longrightarrow> a < b"
  using pow2_mono [of b a] by (cases "a < b") auto

lemma bitlen_pow2_bounds:
  assumes "0 < (p::int)"
  shows "pow2 (bitlen p - 1) \<le> of_int p" and "of_int p < pow2 (bitlen p)"
proof -
  have b: "1 \<le> bitlen p" using assms by (simp add: bitlen_alt_def)
  have "2 ^ nat (bitlen p - 1) \<le> p" "p < 2 ^ nat (bitlen p)"
    using bitlen_bounds[OF assms] by auto
  then have "(of_int (2 ^ nat (bitlen p - 1)) :: rat) \<le> of_int p"
    and "(of_int p :: rat) < of_int (2 ^ nat (bitlen p))"
    by (simp_all only: of_int_le_iff of_int_less_iff)
  then show "pow2 (bitlen p - 1) \<le> of_int p" and "of_int p < pow2 (bitlen p)"
    using b by (simp_all add: pow2_def)
qed

lemma succ_le_pow2_bitlen:
  assumes "0 < (n::int)"
  shows "of_int n + 1 \<le> pow2 (bitlen n)"
proof -
  have "n + 1 \<le> 2 ^ nat (bitlen n)" using bitlen_bounds[OF assms] by simp
  then have "(of_int (n + 1) :: rat) \<le> of_int (2 ^ nat (bitlen n))"
    by (simp only: of_int_le_iff)
  then show ?thesis using bitlen_nonneg[of n] by (simp add: pow2_def)
qed

lemma ilog2_bounds:
  assumes "0 < x"
  shows "pow2 (ilog2 x) \<le> x" and "x < pow2 (ilog2 x + 1)"
proof -
  obtain p q where pq: "quotient_of x = (p, q)" by (cases "quotient_of x")
  have q: "0 < q" using pq quotient_of_denom_pos by blast
  have x: "x = of_int p / of_int q" using pq quotient_of_div by blast
  have p: "0 < p" using assms x q by (simp add: zero_less_divide_iff)
  define k where "k = bitlen p - bitlen q"
  have il: "ilog2 x = (if pow2 k \<le> x then k else k - 1)"
    by (simp add: ilog2_def pq k_def Let_def)
  note bp = bitlen_pow2_bounds[OF p] and bq = bitlen_pow2_bounds[OF q]
  have qr: "(0::rat) < of_int q" using q by simp
  have lo: "pow2 (k - 1) \<le> x"
  proof -
    have "pow2 (k - 1) * of_int q \<le> pow2 (k - 1) * pow2 (bitlen q)"
      using bq(2) pow2_pos[of "k - 1"] by (simp add: less_imp_le)
    also have "\<dots> = pow2 (bitlen p - 1)"
      by (simp add: pow2_add[symmetric] k_def)
    also have "\<dots> \<le> of_int p" by (rule bp(1))
    finally show ?thesis using qr by (simp add: x pos_le_divide_eq)
  qed
  have hi: "x < pow2 (k + 1)"
  proof -
    have "of_int p < pow2 (bitlen p)" by (rule bp(2))
    also have "\<dots> = pow2 (k + 1) * pow2 (bitlen q - 1)"
      by (simp add: pow2_add[symmetric] k_def)
    also have "\<dots> \<le> pow2 (k + 1) * of_int q"
      using bq(1) pow2_pos[of "k + 1"] by simp
    finally show ?thesis using qr by (simp add: x pos_divide_less_eq)
  qed
  show "pow2 (ilog2 x) \<le> x" using lo by (simp add: il)
  show "x < pow2 (ilog2 x + 1)" using hi by (auto simp add: il)
qed

lemma ilog2_eqI:
  assumes "pow2 k \<le> x" "x < pow2 (k + 1)"
  shows "ilog2 x = k"
proof -
  have x: "0 < x" using assms(1) pow2_pos[of k] by simp
  note b = ilog2_bounds[OF x]
  have "pow2 (ilog2 x) < pow2 (k + 1)" using b(1) assms(2) by simp
  then have 1: "ilog2 x < k + 1" by (rule pow2_less_cancel)
  have "pow2 k < pow2 (ilog2 x + 1)" using b(2) assms(1) by simp
  then have 2: "k < ilog2 x + 1" by (rule pow2_less_cancel)
  from 1 2 show ?thesis by simp
qed

lemma ilog2_eval:
  assumes "0 < x"
  shows "ilog2 x = (if 1 \<le> x then bitlen \<lfloor>x\<rfloor> - 1 else - bitlen (\<lceil>1 / x\<rceil> - 1))"
proof (cases "1 \<le> x")
  case True
  define n where "n = \<lfloor>x\<rfloor>"
  have n: "0 < n" using True by (simp add: n_def)
  note b = bitlen_pow2_bounds[OF n]
  have 1: "pow2 (bitlen n - 1) \<le> x"
    using order_trans[OF b(1), of x] by (simp add: n_def)
  have "x < of_int n + 1" using floor_correct[of x] by (simp add: n_def)
  then have 2: "x < pow2 (bitlen n - 1 + 1)"
    using succ_le_pow2_bitlen[OF n] by simp
  show ?thesis using ilog2_eqI[OF 1 2] True by (simp add: n_def)
next
  case False
  define z where "z = 1 / x"
  have z: "1 < z" using False assms by (simp add: z_def)
  define m where "m = \<lceil>z\<rceil> - 1"
  have "1 < \<lceil>z\<rceil>" using z by (simp add: less_ceiling_iff)
  then have m: "0 < m" by (simp add: m_def)
  note b = bitlen_pow2_bounds[OF m]
  have mz: "of_int m < z" using ceiling_correct[of z] by (simp add: m_def)
  have zm: "z \<le> of_int m + 1" using ceiling_correct[of z] by (simp add: m_def)
  have zu: "z \<le> pow2 (bitlen m)" using zm succ_le_pow2_bitlen[OF m] by simp
  have zl: "pow2 (bitlen m - 1) < z" using b(1) mz by simp
  have inv: "pow2 (- e) = 1 / pow2 e" for e
    using pow2_add[of "- e" e] pow2_pos[of e] by (simp add: pow2_def field_simps)
  have x: "x = 1 / z" using assms by (simp add: z_def)
  have 1: "pow2 (- bitlen m) \<le> x"
    using zu z pow2_pos[of "bitlen m"] by (simp add: inv x frac_le)
  have "1 / z < 1 / pow2 (bitlen m - 1)"
    using zl pow2_pos[of "bitlen m - 1"] by (simp add: frac_less2)
  then have 2: "x < pow2 (- bitlen m + 1)"
    using inv[of "bitlen m - 1"] by (simp add: x)
  show ?thesis using ilog2_eqI[OF 1 2] False by (simp add: m_def z_def)
qed

lemma fl_eval:
  "fl x = (if x = 0 then 0
           else let e = max ((if 1 \<le> \<bar>x\<bar> then bitlen \<lfloor>\<bar>x\<bar>\<rfloor> - 1
                              else - bitlen (\<lceil>1 / \<bar>x\<bar>\<rceil> - 1)) - 52) (- 1074)
                in sgn x * of_int (round_half_even (\<bar>x\<bar> / pow2 e)) * pow2 e)"
  by (simp add: fl_def ilog2_eval)

lemma floor_rat_numeral:
  "\<lfloor>(numeral a :: rat) / numeral b\<rfloor> = numeral a div numeral b"
  using floor_divide_of_int_eq [of "numeral a" "numeral b", where ?'a = rat] by simp

lemma ceiling_rat_numeral:
  "\<lceil>(numeral a :: rat) / numeral b\<rceil> = - (- numeral a div numeral b)"
  using floor_divide_of_int_eq [of "- numeral a" "numeral b", where ?'a = rat]
  by (simp add: ceiling_def)

lemma bitlen_numeral:
  "bitlen 1 = 1"
  "bitlen (numeral Num.One) = 1"
  "bitlen (numeral (Num.Bit0 n)) = bitlen (numeral n) + 1"
  "bitlen (numeral (Num.Bit1 n)) = bitlen (numeral n) + 1"
proof -
  show "bitlen 1 = 1" by (subst compute_bitlen) simp
  then show "bitlen (numeral Num.One) = 1" by simp
  show "bitlen (numeral (Num.Bit0 n)) = bitlen (numeral n) + 1"
    by (subst compute_bitlen) simp
  show "bitlen (numeral (Num.Bit1 n)) = bitlen (numeral n) + 1"
    by (subst compute_bitlen) simp
qed

lemma fl_0: "fl 0 = 0"
  by (simp add: fl_def)

lemmas fl_num = fl_0 fl_eval [of 1] fl_eval [of "numeral a"] fl_eval [of "1 / numeral b"]
  fl_eval [of "numeral a / numeral b"] for a b

lemmas fl_simps = fl_num pow2_def round_half_even_def Let_def floor_rat_numeral
  ceiling_rat_numeral bitlen_numeral

lemma replicate_numeral: "replicate (numeral n) x = x # replicate (pred_numeral n) x"
  by (simp add: numeral_eq_Suc)

lemmas arith_defs = gini_def weighted_gini_def fsum_def fadd_def fsub_def fmul_def fdiv_def
  of_count_def fl_simps

lemmas search_defs = best_node_split_def feature_step_def midpoint_step_def class_counts_of_def
  argsort_def take_indices_def upt_rec replicate_numeral

section \<open>The four-observation scenario\<close>

lemma split_scenario:
  "best_node_split 2 1 [[1], [2], [3], [4]] [0, 0, 1, 1] = Inr (Some 0, Some (5 / 2))"
  by (simp add: search_defs arith_defs cong: let_weak_cong)

lemma build_scenario:
  "build_tree 2 1 1 [[1], [2], [3], [4]] [0, 0, 1, 1] 0 =
     Inr (Node (Some (5 / 2)) (Some 0) 0
            (Some (Node None None 0 None None)) (Some (Node None None 1 None None)))"
  using split_scenario
  by (simp add: build_tree.simps mask_select_def argmax_def class_counts_of_def upt_rec
      cong: let_weak_cong)

lemma fit_scenario:
  "fit init [[1], [2], [3], [4]] [0, 0, 1, 1] 1 =
     Inr \<lparr>n_classes = Some 2, n_features = Some 1, max_depth = Some 1,
          root_node = Some (Node (Some (5 / 2)) (Some 0) 0
                   (Some (Node None None 0 None None)) (Some (Node None None 1 None None)))\<rparr>"
proof -
  have k: "Max (set [0, 0, 1, 1 :: nat]) + 1 = 2" by simp
  have nf: "shape1 [[1], [2], [3], [4]] = 1" by (simp add: shape1_def)
  show ?thesis
    unfolding fit_def Let_def k nf build_scenario by (simp add: init_def)
qed

text \<open>
  C2. On \<open>X = [[1.0],[2.0],[3.0],[4.0]]\<close>, \<open>y = [0,0,1,1]\<close> with \<open>max_depth = 1\<close>, \<open>fit\<close>
  returns a classifier whose root splits on feature 0 at threshold 2.5, with a left node
  without children of majority class 0 and a right node without children of majority
  class 1; \<open>predict\<close> on \<open>[[1.5],[3.5]]\<close> then returns \<open>[0, 1]\<close>.
\<close>

theorem scenario_fit_predict:
  "\<exists>c. fit init [[1], [2], [3], [4]] [0, 0, 1, 1] 1 = Inr c
       \<and> root_node c = Some (Node (Some (5 / 2)) (Some 0) 0
                     (Some (Node None None 0 None None)) (Some (Node None None 1 None None)))
       \<and> snd (predict c [[3 / 2], [7 / 2]]) = Inr [0, 1]"
  unfolding fit_scenario by (simp add: predict_def)

section \<open>The tree builder and the predictor\<close>

lemma build_tree_at_max_depth:
  "build_tree k nf md X y md =
     (case argmax (class_counts_of k y) of
        Inl e \<Rightarrow> Inl e
      | Inr m \<Rightarrow> Inr (Node None None m None None))"
  by (subst build_tree.simps) (simp split: sum.splits)

lemma build_tree_cases [consumes 1, case_names leaf split]:
  assumes "build_tree k nf md X y depth = Inr n"
  obtains
    (leaf) m bt where "n = Node bt None m None None"
  | (split) m f t Xl yl l Xr yr r where
      "depth < md"
      "best_node_split k nf X y = Inr (Some f, Some t)"
      "mask_select X (map (\<lambda>row. row ! f < t) X) = Inr Xl"
      "mask_select y (map (\<lambda>row. row ! f < t) X) = Inr yl"
      "build_tree k nf md Xl yl (depth + 1) = Inr l"
      "mask_select X (map (\<lambda>row. t < row ! f) X) = Inr Xr"
      "mask_select y (map (\<lambda>row. t < row ! f) X) = Inr yr"
      "build_tree k nf md Xr yr (depth + 1) = Inr r"
      "n = Node (Some t) (Some f) m (Some l) (Some r)"
  using assms
  by (subst (asm) build_tree.simps)
     (auto split: sum.splits if_splits prod.splits option.splits simp: Let_def)

lemma build_tree_leaf_depths:
  "build_tree k nf md X y depth = Inr n \<Longrightarrow> depth \<le> md
     \<Longrightarrow> \<forall>d \<in> set (leaf_depths d0 n). int d \<le> int d0 + (md - depth)"
proof (induction "nat (md - depth)" arbitrary: X y depth n d0 rule: less_induct)
  case less
  from less.prems(1) show ?case
  proof (cases rule: build_tree_cases)
    case (leaf m bt)
    then show ?thesis using less.prems(2) by simp
  next
    case (split m f t Xl yl l Xr yr r)
    have lt: "nat (md - (depth + 1)) < nat (md - depth)" using split(1) by simp
    have le: "depth + 1 \<le> md" using split(1) by simp
    have "\<forall>d \<in> set (leaf_depths (Suc d0) l). int d \<le> int (Suc d0) + (md - (depth + 1))"
      by (rule less.hyps[OF lt split(5) le])
    moreover
    have "\<forall>d \<in> set (leaf_depths (Suc d0) r). int d \<le> int (Suc d0) + (md - (depth + 1))"
      by (rule less.hyps[OF lt split(8) le])
    ultimately show ?thesis by (auto simp: split(9))
  qed
qed

lemma build_tree_children_together:
  "build_tree k nf md X y depth = Inr n \<Longrightarrow> children_together n"
proof (induction "nat (md - depth)" arbitrary: X y depth n rule: less_induct)
  case less
  from less.prems(1) show ?case
  proof (cases rule: build_tree_cases)
    case (leaf m bt)
    then show ?thesis by simp
  next
    case (split m f t Xl yl l Xr yr r)
    have lt: "nat (md - (depth + 1)) < nat (md - depth)" using split(1) by simp
    show ?thesis
      using less.hyps[OF lt split(5)] less.hyps[OF lt split(8)] by (simp add: split(9))
  qed
qed

lemma walk_no_attribute_error:
  "children_together n \<Longrightarrow> walk n obs \<noteq> Inl AttributeError"
proof (induction n obs rule: walk.induct)
  case (1 t f c r observation)
  show ?case by simp
next
  case (2 t f c l r observation)
  from "2.prems" obtain rn where r: "r = Some rn"
    and cl: "children_together l" and cr: "children_together rn"
    by (cases r) auto
  show ?case
  proof (cases f)
    case None
    then show ?thesis by simp
  next
    case f: (Some feature)
    show ?thesis
    proof (cases t)
      case None
      then show ?thesis by (simp add: f)
    next
      case t: (Some thr)
      show ?thesis
        using "2.IH" cl cr by (auto simp: f t r)
    qed
  qed
qed

text \<open>
  C3. For every \<open>max_depth \<ge> 0\<close>, when \<open>fit\<close> returns, the tree has no node without
  children at a depth greater than \<open>max_depth\<close>, and with \<open>max_depth = 0\<close> the tree is a
  single node without children. At \<open>depth = max_depth\<close> the builder returns such a node
  whatever the split search would find: its result there does not mention the search.
\<close>

theorem depth_bound:
  assumes "0 \<le> md" and "fit self X y md = Inr c"
  shows "(\<exists>rt. root_node c = Some rt
            \<and> (\<forall>d \<in> set (leaf_depths 0 rt). int d \<le> md)
            \<and> (md = 0 \<longrightarrow> (\<exists>m. rt = Node None None m None None)))
         \<and> build_tree k nf md' X' y' md' =
             (case argmax (class_counts_of k y') of
                Inl e \<Rightarrow> Inl e
              | Inr m \<Rightarrow> Inr (Node None None m None None))"
proof -
  from assms(2) obtain rt where
    b: "build_tree (Max (set y) + 1) (shape1 X) md X y 0 = Inr rt" and c: "root_node c = Some rt"
    by (auto simp: fit_def Let_def split: if_splits sum.splits)
  have "\<forall>d \<in> set (leaf_depths 0 rt). int d \<le> md"
    using build_tree_leaf_depths[OF b assms(1), of 0] by simp
  moreover have "md = 0 \<longrightarrow> (\<exists>m. rt = Node None None m None None)"
    using b build_tree_at_max_depth[of "Max (set y) + 1" "shape1 X" 0 X y]
    by (auto split: sum.splits)
  ultimately show ?thesis using c build_tree_at_max_depth by simp
qed

lemma fit_scenario_depth_0:
  "fit init [[1], [2], [3], [4]] [0, 0, 1, 1] 0 =
     Inr \<lparr>n_classes = Some 2, n_features = Some 1, max_depth = Some 0,
          root_node = Some (Node None None 0 None None)\<rparr>"
proof -
  have k: "Max (set [0, 0, 1, 1 :: nat]) + 1 = 2" by simp
  have nf: "shape1 [[1], [2], [3], [4]] = 1" by (simp add: shape1_def)
  show ?thesis
    unfolding fit_def Let_def k nf build_tree_at_max_depth
    by (simp add: init_def argmax_def class_counts_of_def upt_rec)
qed

theorem depth_bound_witness:
  "(\<exists>rt. root_node \<lparr>n_classes = Some 2, n_features = Some 1, max_depth = Some 1,
              root_node = Some (Node (Some (5 / 2)) (Some 0) 0
                (Some (Node None None 0 None None)) (Some (Node None None 1 None None)))\<rparr>
           = Some rt
         \<and> (\<forall>d \<in> set (leaf_depths 0 rt). int d \<le> 1))
   \<and> (\<exists>rt. root_node \<lparr>n_classes = Some 2, n_features = Some 1, max_depth = Some 0,
                root_node = Some (Node None None 0 None None)\<rparr> = Some rt
         \<and> (\<exists>m. rt = Node None None m None None))"
  using depth_bound[OF _ fit_scenario, of 0 0 0 "[]" "[]"]
    depth_bound[OF _ fit_scenario_depth_0, of 0 0 0 "[]" "[]"]
  by simp

text \<open>
  C10. Every node of a tree that \<open>build_tree\<close> returns has both children or none, so the
  predictor, which tests the left child only, never steps to a right child that is
  \<open>None\<close>.
\<close>

theorem children_set_together:
  assumes "build_tree k nf md X y depth = Inr n"
  shows "children_together n \<and> (\<forall>obs. walk n obs \<noteq> Inl AttributeError)"
  using build_tree_children_together[OF assms] walk_no_attribute_error by blast

theorem children_set_together_witness:
  "children_together (Node (Some (5 / 2)) (Some 0) 0
      (Some (Node None None 0 None None)) (Some (Node None None 1 None None)))
   \<and> (\<forall>obs. walk (Node (Some (5 / 2)) (Some 0) 0
      (Some (Node None None 0 None None)) (Some (Node None None 1 None None))) obs
        \<noteq> Inl AttributeError)"
  using children_set_together[OF build_scenario] .

text \<open>
  C7. At a node without a left child the walk ends with the node's majority class. At
  a node with both children, a feature index inside the observation and a threshold,
  the walk continues in the left child exactly when \<open>observation[feature_index] <=
  threshold\<close> and in the right child otherwise. \<open>predict\<close> emits, for every observation
  in order, the class its walk from the root ends with.
\<close>

theorem traversal:
  "(left n = None \<longrightarrow> walk n obs = Inr (majority_class n))
   \<and> (left n = Some l \<and> right n = Some r \<and> feature_index n = Some f \<and> threshold n = Some t
        \<and> f < length obs
      \<longrightarrow> walk n obs = (if obs ! f \<le> t then walk l obs else walk r obs))
   \<and> (root_node self = Some rt \<and> (\<forall>obs \<in> set X. \<exists>c. walk rt obs = Inr c)
      \<longrightarrow> snd (predict self X) = Inr (map (\<lambda>obs. projr (walk rt obs)) X))"
proof -
  have 1: "left n = None \<longrightarrow> walk n obs = Inr (majority_class n)"
    by (cases n) auto
  have 2: "left n = Some l \<and> right n = Some r \<and> feature_index n = Some f \<and> threshold n = Some t
        \<and> f < length obs
      \<longrightarrow> walk n obs = (if obs ! f \<le> t then walk l obs else walk r obs)"
    by (cases n) auto
  have loop: "\<forall>obs \<in> set X. \<exists>c. walk rt obs = Inr c \<Longrightarrow>
    for_each (\<lambda>observation predictions.
           case Some rt of
             None \<Rightarrow> Inl AttributeError
           | Some node \<Rightarrow>
               (case walk node observation of
                  Inl e \<Rightarrow> Inl e
                | Inr c \<Rightarrow> Inr (predictions @ [c]))) X acc
      = Inr (acc @ map (\<lambda>obs. projr (walk rt obs)) X)" for acc
    by (induction X arbitrary: acc) auto
  have 3: "root_node self = Some rt \<and> (\<forall>obs \<in> set X. \<exists>c. walk rt obs = Inr c)
      \<longrightarrow> snd (predict self X) = Inr (map (\<lambda>obs. projr (walk rt obs)) X)"
    using loop[of "[]"] by (auto simp: predict_def)
  from 1 2 3 show ?thesis by blast
qed


theorem traversal_witness:
  "walk (Node None None 1 None None) [5 / 2] = Inr 1
   \<and> walk (Node (Some (5 / 2)) (Some 0) 0
        (Some (Node None None 0 None None)) (Some (Node None None 1 None None))) [5 / 2]
       = walk (Node None None 0 None None) [5 / 2]
   \<and> snd (predict \<lparr>n_classes = Some 2, n_features = Some 1, max_depth = Some 1,
          root_node = Some (Node (Some (5 / 2)) (Some 0) 0
            (Some (Node None None 0 None None)) (Some (Node None None 1 None None)))\<rparr>
          [[5 / 2], [3]]) = Inr [0, 1]"
  using traversal[of "Node None None 1 None None" "[5 / 2]"
      "Node None None 0 None None" "Node None None 1 None None" 0 "5 / 2"
      init "Node None None 1 None None" "[]"]
    traversal[of "Node (Some (5 / 2)) (Some 0) 0
        (Some (Node None None 0 None None)) (Some (Node None None 1 None None))" "[5 / 2]"
      "Node None None 0 None None" "Node None None 1 None None" 0 "5 / 2"
      "\<lparr>n_classes = Some 2, n_features = Some 1, max_depth = Some 1,
          root_node = Some (Node (Some (5 / 2)) (Some 0) 0
            (Some (Node None None 0 None None)) (Some (Node None None 1 None None)))\<rparr>"
      "Node (Some (5 / 2)) (Some 0) 0
        (Some (Node None None 0 None None)) (Some (Node None None 1 None None))"
      "[[5 / 2], [3]]"]
  by simp

section \<open>Thresholds between adjacent binary64 numbers\<close>

text \<open>
  The midpoint \<open>(a + b) / 2\<close> of two adjacent binary64 numbers is not a binary64
  number; the sum rounds to a neighbour, and the threshold is \<open>a\<close> or \<open>b\<close> itself.
\<close>

lemma build_tree_empty:
  "build_tree 2 1 10 [] [] 1 = Inr (Node None None 0 None None)"
  by (simp add: build_tree.simps search_defs arith_defs mask_select_def argmax_def
      cong: let_weak_cong)

lemma build_tree_single:
  "build_tree 2 1 10 [[x]] [c] 1 =
     (case argmax (class_counts_of 2 [c]) of
        Inl e \<Rightarrow> Inl e | Inr m \<Rightarrow> Inr (Node None None m None None))"
  by (simp add: build_tree.simps best_node_split_def feature_step_def argsort_def
      take_indices_def upt_rec split: sum.splits cong: let_weak_cong)

lemma split_adjacent_low:
  "best_node_split 2 1 [[1], [1 + 1 / 2 ^ 52]] [0, 1] = Inr (Some 0, Some 1)"
  by (simp add: search_defs arith_defs cong: let_weak_cong)

text \<open>
  C4, at \<open>X = [[1.0], [1.0000000000000002]]\<close>, \<open>y = [0, 1]\<close>. Both values are binary64
  numbers and they differ, so the candidate between them is not skipped; its threshold
  is \<open>1.0\<close>, the first observation. No row is below the threshold and one is above it:
  the subsets of the split hold one of the two rows, and the row \<open>[1.0]\<close> is in neither.
\<close>

theorem partition_drops_observation:
  "fl 1 = 1 \<and> fl (1 + 1 / 2 ^ 52) = 1 + 1 / 2 ^ 52
   \<and> best_node_split 2 1 [[1], [1 + 1 / 2 ^ 52]] [0, 1] = Inr (Some 0, Some 1)
   \<and> mask_select [[1 :: rat], [1 + 1 / 2 ^ 52]] (map (\<lambda>row. row ! 0 < 1) [[1 :: rat], [1 + 1 / 2 ^ 52]])
       = Inr []
   \<and> mask_select [[1 :: rat], [1 + 1 / 2 ^ 52]] (map (\<lambda>row. 1 < row ! 0) [[1 :: rat], [1 + 1 / 2 ^ 52]])
       = Inr [[1 + 1 / 2 ^ 52]]
   \<and> build_tree 2 1 10 [[1], [1 + 1 / 2 ^ 52]] [0, 1] 0 =
       Inr (Node (Some 1) (Some 0) 0
              (Some (Node None None 0 None None)) (Some (Node None None 1 None None)))"
proof -
  have a: "fl 1 = 1" "fl (1 + 1 / 2 ^ 52) = 1 + 1 / 2 ^ 52" by (simp_all add: fl_simps)
  have l: "mask_select [[1 :: rat], [1 + 1 / 2 ^ 52]]
      (map (\<lambda>row. row ! 0 < 1) [[1 :: rat], [1 + 1 / 2 ^ 52]]) = Inr []"
    by (simp add: mask_select_def)
  have r: "mask_select [[1 :: rat], [1 + 1 / 2 ^ 52]]
      (map (\<lambda>row. 1 < row ! 0) [[1 :: rat], [1 + 1 / 2 ^ 52]]) = Inr [[1 + 1 / 2 ^ 52]]"
    by (simp add: mask_select_def)
  have b: "build_tree 2 1 10 [[1], [1 + 1 / 2 ^ 52]] [0, 1] 0 =
       Inr (Node (Some 1) (Some 0) 0
              (Some (Node None None 0 None None)) (Some (Node None None 1 None None)))"
    using split_adjacent_low build_tree_empty build_tree_single[of "1 + 1 / 2 ^ 52" 1]
    by (subst build_tree.simps)
       (simp add: mask_select_def argmax_def class_counts_of_def upt_rec cong: let_weak_cong)
  from a l r b split_adjacent_low show ?thesis by blast
qed


lemma split_adjacent_high:
  "best_node_split 2 1 [[1 + 1 / 2 ^ 52], [1 + 1 / 2 ^ 51]] [0, 1]
     = Inr (Some 0, Some (1 + 1 / 2 ^ 51))"
  by (simp add: search_defs arith_defs cong: let_weak_cong)

text \<open>
  C9, at \<open>X = [[1.0000000000000002], [1.0000000000000004]]\<close>, \<open>y = [0, 1]\<close>. The chosen
  threshold is the larger value, no row is above it, and the recursive call for the
  right child receives no observation and no label: \<open>n_observations\<close> is 0 there, and
  the right child is a node of class 0 that no observation supports.
\<close>

theorem empty_subset_reached:
  "fl (1 + 1 / 2 ^ 52) = 1 + 1 / 2 ^ 52 \<and> fl (1 + 1 / 2 ^ 51) = 1 + 1 / 2 ^ 51
   \<and> best_node_split 2 1 [[1 + 1 / 2 ^ 52], [1 + 1 / 2 ^ 51]] [0, 1]
       = Inr (Some 0, Some (1 + 1 / 2 ^ 51))
   \<and> mask_select [[1 + 1 / 2 ^ 52 :: rat], [1 + 1 / 2 ^ 51]]
        (map (\<lambda>row. 1 + 1 / 2 ^ 51 < row ! 0) [[1 + 1 / 2 ^ 52 :: rat], [1 + 1 / 2 ^ 51]])
       = Inr []
   \<and> mask_select [0, 1 :: nat]
        (map (\<lambda>row. 1 + 1 / 2 ^ 51 < row ! 0) [[1 + 1 / 2 ^ 52 :: rat], [1 + 1 / 2 ^ 51]])
       = Inr []
   \<and> build_tree 2 1 10 [] [] 1 = Inr (Node None None 0 None None)
   \<and> build_tree 2 1 10 [[1 + 1 / 2 ^ 52], [1 + 1 / 2 ^ 51]] [0, 1] 0 =
       Inr (Node (Some (1 + 1 / 2 ^ 51)) (Some 0) 0
              (Some (Node None None 0 None None)) (Some (Node None None 0 None None)))"
proof -
  have a: "fl (1 + 1 / 2 ^ 52) = 1 + 1 / 2 ^ 52" "fl (1 + 1 / 2 ^ 51) = 1 + 1 / 2 ^ 51"
    by (simp_all add: fl_simps)
  have r: "mask_select [[1 + 1 / 2 ^ 52 :: rat], [1 + 1 / 2 ^ 51]]
        (map (\<lambda>row. 1 + 1 / 2 ^ 51 < row ! 0) [[1 + 1 / 2 ^ 52 :: rat], [1 + 1 / 2 ^ 51]])
       = Inr []"
    by (simp add: mask_select_def)
  have ry: "mask_select [0, 1 :: nat]
        (map (\<lambda>row. 1 + 1 / 2 ^ 51 < row ! 0) [[1 + 1 / 2 ^ 52 :: rat], [1 + 1 / 2 ^ 51]])
       = Inr []"
    by (simp add: mask_select_def)
  have b: "build_tree 2 1 10 [[1 + 1 / 2 ^ 52], [1 + 1 / 2 ^ 51]] [0, 1] 0 =
       Inr (Node (Some (1 + 1 / 2 ^ 51)) (Some 0) 0
              (Some (Node None None 0 None None)) (Some (Node None None 0 None None)))"
    using split_adjacent_high build_tree_empty build_tree_single[of "1 + 1 / 2 ^ 52" 0]
    by (subst build_tree.simps)
       (simp add: mask_select_def argmax_def class_counts_of_def upt_rec cong: let_weak_cong)
  from a r ry b split_adjacent_high build_tree_empty show ?thesis by blast
qed

section \<open>The renderer on the scenario\<close>

text \<open>
  C8. A node without children renders as the one line \<open>c: <majority_class>\<close>, with the
  line's length as width, height 1 and root offset width div 2. With a float printer
  that prints 2.5 as \<open>2.5\<close>, the tree of the scenario renders as three lines: the label
  line contains \<open>f: 0, t: 2.5\<close>; the line below has \<open>/\<close> in column 2, the left child's
  root offset, and a backslash in column 2 + 4 + 12, the right child's root offset
  shifted by the left width and the label width.
\<close>

theorem rendering:
  assumes "float_str (5 / 2) = ''2.5''"
  shows "print_tree_aux float_str (Node t f c None None) =
           Inr ([''c: '' @ str_nat c], int (length (''c: '' @ str_nat c)), 1,
                int (length (''c: '' @ str_nat c)) div 2)
    \<and> (\<exists>cl second. fit init [[1], [2], [3], [4]] [0, 0, 1, 1] 1 = Inr cl
         \<and> print_tree float_str cl =
             Inr [''   _'' @ ''f: 0, t: 2.5'' @ ''__  '', second, ''c: 0            c: 1'']
         \<and> second = ''  /               '' @ [CHR 0x5C] @ '' ''
         \<and> print_tree_aux float_str (Node None None 0 None None) = Inr ([''c: 0''], 4, 1, 2)
         \<and> print_tree_aux float_str (Node None None 1 None None) = Inr ([''c: 1''], 4, 1, 2)
         \<and> length ''f: 0, t: 2.5'' = 12
         \<and> second ! 2 = CHR ''/'' \<and> second ! (2 + (4 + 12)) = CHR 0x5C)"
proof -
  have s0: "str_nat 0 = ''0''" and s1: "str_nat 1 = ''1''"
    by (simp_all add: str_nat.simps)
  have leaf: "print_tree_aux float_str (Node t f c None None) =
           Inr ([''c: '' @ str_nat c], int (length (''c: '' @ str_nat c)), 1,
                int (length (''c: '' @ str_nat c)) div 2)"
    by (simp add: Let_def)
  have l0: "print_tree_aux float_str (Node None None 0 None None) = Inr ([''c: 0''], 4, 1, 2)"
    using s0 by (simp add: Let_def)
  have l1: "print_tree_aux float_str (Node None None 1 None None) = Inr ([''c: 1''], 4, 1, 2)"
    using s1 by (simp add: Let_def)
  have tree: "print_tree_aux float_str (Node (Some (5 / 2)) (Some 0) 0
            (Some (Node None None 0 None None)) (Some (Node None None 1 None None))) =
      Inr ([''   _'' @ ''f: 0, t: 2.5'' @ ''__  '', ''  /               '' @ [CHR 0x5C] @ '' '',
            ''c: 0            c: 1''], 20, 3, 10)"
    using s0 s1 by (simp add: Let_def repeat_char_def assms replicate_numeral)
  show ?thesis
    unfolding fit_scenario using leaf l0 l1 tree by (simp add: print_tree_def)
qed

theorem rendering_witness:
  "(\<lambda>x. ''2.5'') (5 / 2 :: rat) = ''2.5''
   \<and> print_tree_aux (\<lambda>x. ''2.5'') (Node None None 7 None None) = Inr ([''c: 7''], 4, 1, 2)
   \<and> print_tree (\<lambda>x. ''2.5'')
        \<lparr>n_classes = Some 2, n_features = Some 1, max_depth = Some 1,
          root_node = Some (Node (Some (5 / 2)) (Some 0) 0
            (Some (Node None None 0 None None)) (Some (Node None None 1 None None)))\<rparr>
      = Inr [''   _f: 0, t: 2.5__  '', ''  /               '' @ [CHR 0x5C] @ '' '',
             ''c: 0            c: 1'']"
  using rendering[of "\<lambda>x. ''2.5''" None None 7] fit_scenario
  by (simp add: str_nat.simps)


section \<open>Inputs that the specification excludes\<close>

lemma argmax_class_counts:
  "0 < k \<Longrightarrow> \<exists>m. argmax (class_counts_of k y) = Inr m"
  by (cases "class_counts_of k y") (auto simp: argmax_def class_counts_of_def)

lemma set_argsort: "set (argsort v) = {0..<length v}"
  by (simp add: argsort_def)

lemma best_node_split_too_few_labels:
  assumes "length y < length X" and "0 < nf"
  shows "best_node_split k nf X y = Inl IndexError"
proof -
  have "length y \<in> set (argsort (map (\<lambda>row. row ! 0) X))"
    using assms(1) by (simp add: set_argsort)
  then have "take_indices y (argsort (map (\<lambda>row. row ! 0) X)) = Inl IndexError"
    by (auto simp: take_indices_def)
  then have "feature_step k X y cc 0 b = Inl IndexError" for cc b
    by (simp add: feature_step_def Let_def)
  moreover have "[0..<nf] = 0 # [1..<nf]" using assms(2) by (simp add: upt_conv_Cons)
  ultimately show ?thesis by (simp add: best_node_split_def Let_def)
qed

text \<open>
  C5, as the code has it. \<open>fit\<close> checks nothing itself. With no labels it fails with the
  \<open>ValueError\<close> of \<open>np.max\<close>. With labels and a \<open>max_depth\<close> that is negative (or zero)
  it returns a tree of one node without children. With fewer labels than rows, at least
  one feature and a positive \<open>max_depth\<close> it fails with the \<open>IndexError\<close> of the label
  lookup.
\<close>

theorem fit_unvalidated:
  "fit self X [] md = Inl ValueError
   \<and> (y \<noteq> [] \<and> md \<le> 0 \<longrightarrow>
        (\<exists>m. fit self X y md =
           Inr (self\<lparr>n_features := Some (shape1 X), n_classes := Some (Max (set y) + 1),
                     max_depth := Some md, root_node := Some (Node None None m None None)\<rparr>)))
   \<and> (y \<noteq> [] \<and> length y < length X \<and> 0 < shape1 X \<and> 0 < md \<longrightarrow>
        fit self X y md = Inl IndexError)"
proof -
  have 1: "fit self X [] md = Inl ValueError" by (simp add: fit_def)
  obtain m where m: "argmax (class_counts_of (Max (set y) + 1) y) = Inr m"
    using argmax_class_counts[of "Max (set y) + 1" y] by auto
  have 2: "y \<noteq> [] \<and> md \<le> 0 \<longrightarrow>
        (\<exists>m. fit self X y md =
           Inr (self\<lparr>n_features := Some (shape1 X), n_classes := Some (Max (set y) + 1),
                     max_depth := Some md, root_node := Some (Node None None m None None)\<rparr>))"
    using m by (auto simp: fit_def Let_def build_tree.simps)
  have 3: "y \<noteq> [] \<and> length y < length X \<and> 0 < shape1 X \<and> 0 < md \<longrightarrow>
        fit self X y md = Inl IndexError"
    using m by (simp add: fit_def Let_def build_tree.simps best_node_split_too_few_labels)
  from 1 2 3 show ?thesis by blast
qed

theorem fit_unvalidated_witness:
  "fit init [[1]] [] 3 = Inl ValueError
   \<and> (\<exists>m. fit init [[1]] [0] (- 1) =
         Inr \<lparr>n_classes = Some 1, n_features = Some 1, max_depth = Some (- 1),
              root_node = Some (Node None None m None None)\<rparr>)
   \<and> fit init [[1], [2]] [0] 3 = Inl IndexError"
  using fit_unvalidated[of init "[[1]]" 3 "[0]"] fit_unvalidated[of init "[[1]]" "- 1" "[0]"]
    fit_unvalidated[of init "[[1], [2]]" 3 "[0]"]
  by (simp add: shape1_def init_def)

lemma split_single_row:
  "best_node_split 2 1 [[1]] [0, 1] = Inr (None, None)"
  by (simp add: best_node_split_def feature_step_def argsort_def take_indices_def upt_rec
      cong: let_weak_cong)

text \<open>
  C5, as stated, fails: with \<open>max_depth = -1\<close> on one labelled row, and with one row and
  two labels, \<open>fit\<close> returns a classifier.
\<close>

theorem fit_accepts_invalid_input:
  "fit init [[1]] [0] (- 1) =
     Inr \<lparr>n_classes = Some 1, n_features = Some 1, max_depth = Some (- 1),
          root_node = Some (Node None None 0 None None)\<rparr>
   \<and> fit init [[1]] [0, 1] 5 =
     Inr \<lparr>n_classes = Some 2, n_features = Some 1, max_depth = Some 5,
          root_node = Some (Node None None 0 None None)\<rparr>"
proof -
  have a: "build_tree 1 1 (- 1) [[1]] [0] 0 = Inr (Node None None 0 None None)"
    by (simp add: build_tree.simps argmax_def class_counts_of_def upt_rec)
  have b: "build_tree 2 1 5 [[1]] [0, 1] 0 = Inr (Node None None 0 None None)"
    using split_single_row
    by (simp add: build_tree.simps argmax_def class_counts_of_def upt_rec)
  have k1: "Max (set [0 :: nat]) + 1 = 1" and k2: "Max (set [0, 1 :: nat]) + 1 = 2" by simp_all
  have nf: "shape1 [[1]] = 1" by (simp add: shape1_def)
  have "fit init [[1]] [0] (- 1) =
     Inr \<lparr>n_classes = Some 1, n_features = Some 1, max_depth = Some (- 1),
          root_node = Some (Node None None 0 None None)\<rparr>"
    unfolding fit_def Let_def k1 nf a by (simp add: init_def)
  moreover have "fit init [[1]] [0, 1] 5 =
     Inr \<lparr>n_classes = Some 2, n_features = Some 1, max_depth = Some 5,
          root_node = Some (Node None None 0 None None)\<rparr>"
    unfolding fit_def Let_def k2 nf b by (simp add: init_def)
  ultimately show ?thesis by blast
qed

lemma walk_extra_columns:
  "walk n observation = Inr c \<Longrightarrow> walk n (observation @ extra) = Inr c"
proof (induction n observation rule: walk.induct)
  case (1 t f c' r observation)
  then show ?case by simp
next
  case (2 t f c' l r observation)
  then show ?case
    by (auto split: option.splits if_splits simp: nth_append)
qed

lemma predict_loop_extra_columns:
  "for_each (\<lambda>observation predictions.
       case rt of None \<Rightarrow> Inl AttributeError
       | Some node \<Rightarrow> (case walk node observation of
            Inl e \<Rightarrow> Inl e | Inr c \<Rightarrow> Inr (predictions @ [c]))) X acc = Inr ps
   \<Longrightarrow> for_each (\<lambda>observation predictions.
       case rt of None \<Rightarrow> Inl AttributeError
       | Some node \<Rightarrow> (case walk node observation of
            Inl e \<Rightarrow> Inl e | Inr c \<Rightarrow> Inr (predictions @ [c])))
       (map (\<lambda>observation. observation @ extra) X) acc = Inr ps"
proof (induction X arbitrary: acc)
  case Nil
  then show ?case by simp
next
  case (Cons observation X)
  then show ?case
    by (auto split: option.splits sum.splits simp: walk_extra_columns)
qed

text \<open>
  C6, as the code has it. \<open>predict\<close> leaves the classifier as it was. It does not compare
  the number of columns with the number of features: rows with further columns appended
  get the predictions of the rows without them, and a row too short for the feature
  index of a node with a left child fails there with an \<open>IndexError\<close>.
\<close>

theorem predict_unchecked_columns:
  "fst (predict self X) = self
   \<and> (snd (predict self X) = Inr ps \<longrightarrow>
        snd (predict self (map (\<lambda>observation. observation @ extra) X)) = Inr ps)
   \<and> (left n = Some l \<and> feature_index n = Some f \<and> threshold n = Some t
        \<and> length observation \<le> f \<longrightarrow> walk n observation = Inl IndexError)"
proof -
  have 3: "left n = Some l \<and> feature_index n = Some f \<and> threshold n = Some t
        \<and> length observation \<le> f \<longrightarrow> walk n observation = Inl IndexError"
    by (cases n) auto
  show ?thesis
    using 3 predict_loop_extra_columns[of "root_node self" X "[]" ps extra]
    by (simp add: predict_def)
qed

theorem predict_unchecked_columns_witness:
  "snd (predict \<lparr>n_classes = Some 2, n_features = Some 1, max_depth = Some 1,
          root_node = Some (Node (Some (5 / 2)) (Some 0) 0
            (Some (Node None None 0 None None)) (Some (Node None None 1 None None)))\<rparr>
        [[3 / 2, 8, 9], [7 / 2, 8, 9]]) = Inr [0, 1]
   \<and> walk (Node (Some (5 / 2)) (Some 0) 0
            (Some (Node None None 0 None None)) (Some (Node None None 1 None None))) []
       = Inl IndexError"
  using predict_unchecked_columns[of
      "\<lparr>n_classes = Some 2, n_features = Some 1, max_depth = Some 1,
          root_node = Some (Node (Some (5 / 2)) (Some 0) 0
            (Some (Node None None 0 None None)) (Some (Node None None 1 None None)))\<rparr>"
      "[[3 / 2], [7 / 2]]" "[0, 1]" "[8, 9]"
      "Node (Some (5 / 2)) (Some 0) 0
            (Some (Node None None 0 None None)) (Some (Node None None 1 None None))"
      "Node None None 0 None None" 0 "5 / 2" "[]"]
  by (simp add: predict_def)


text \<open>
  C6, as stated, fails: the classifier of the scenario, fitted on one feature, predicts
  for a matrix of two columns.
\<close>

theorem predict_accepts_other_width:
  "snd (predict \<lparr>n_classes = Some 2, n_features = Some 1, max_depth = Some 1,
          root_node = Some (Node (Some (5 / 2)) (Some 0) 0
            (Some (Node None None 0 None None)) (Some (Node None None 1 None None)))\<rparr>
        [[3 / 2, 9], [7 / 2, 9]]) = Inr [0, 1]"
  by (simp add: predict_def)


section \<open>The split search finds the first minimal candidate\<close>

text \<open>
  The loop of \<open>best_node_split\<close> keeps, before position \<open>i\<close>, the class counts of the
  first \<open>i - 1\<close> sorted labels and of the remaining ones; so the impurity it computes at
  a position is the one the specification lists for that candidate.
\<close>

lemma length_class_counts [simp]: "length (class_counts_of k ys) = k"
  by (simp add: class_counts_of_def)

















end
